theory Spec2Isabelle
  imports
    Main
    "HOL-Library.Char_ord"
    "HOL-Library.List_Lexorder"
    "HOL-Library.AList"
begin

section \<open>Go library functions used by the source\<close>

text \<open>
  A Go \<open>string\<close> is a sequence of bytes and is modelled as \<open>string\<close> (a list of
  \<open>char\<close>); \<open><\<close> on strings is the bytewise lexicographic order of Go
  (\<open>Char_ord\<close> with \<open>List_Lexorder\<close>). The case and white-space functions of package
  \<open>strings\<close> are given on ASCII text, one \<open>char\<close> per rune: letters outside
  \<open>a-z\<close>/\<open>A-Z\<close> have no case here.
\<close>

definition toUpperChar :: "char \<Rightarrow> char" where
  "toUpperChar c =
     (case map_of (zip ''abcdefghijklmnopqrstuvwxyz'' ''ABCDEFGHIJKLMNOPQRSTUVWXYZ'') c of
        Some u \<Rightarrow> u
      | None \<Rightarrow> c)"

definition toLowerChar :: "char \<Rightarrow> char" where
  "toLowerChar c =
     (case map_of (zip ''ABCDEFGHIJKLMNOPQRSTUVWXYZ'' ''abcdefghijklmnopqrstuvwxyz'') c of
        Some l \<Rightarrow> l
      | None \<Rightarrow> c)"

definition ToUpper :: "string \<Rightarrow> string" where
  "ToUpper s = map toUpperChar s"

definition EqualFold :: "string \<Rightarrow> string \<Rightarrow> bool" where
  "EqualFold s t = (map toLowerChar s = map toLowerChar t)"

definition isSpace :: "char \<Rightarrow> bool" where
  "isSpace c = (c \<in> set [CHR 0x09, CHR 0x0A, CHR 0x0B, CHR 0x0C, CHR 0x0D, CHR '' ''])"

definition TrimSpace :: "string \<Rightarrow> string" where
  "TrimSpace s = rev (dropWhile isSpace (rev (dropWhile isSpace s)))"

definition TrimSuffix :: "string \<Rightarrow> string \<Rightarrow> string" where
  "TrimSuffix s suffix =
     (if length suffix \<le> length s \<and> drop (length s - length suffix) s = suffix
      then take (length s - length suffix) s
      else s)"

text \<open>\<open>strings.Split(s, "/")\<close>: the pieces between the separators, never an empty list.\<close>

fun Split :: "string \<Rightarrow> char \<Rightarrow> string list" where
  "Split [] sep = [[]]"
| "Split (c # cs) sep =
     (if c = sep then [] # Split cs sep
      else (case Split cs sep of
              [] \<Rightarrow> [[c]]
            | p # ps \<Rightarrow> (c # p) # ps))"

fun Join :: "string list \<Rightarrow> string \<Rightarrow> string" where
  "Join [] sep = []"
| "Join [e] sep = e"
| "Join (e # es) sep = e @ sep @ Join es sep"

text \<open>
  \<open>path.Clean\<close>: empty and \<open>.\<close> elements go, a \<open>..\<close> removes the element before
  it (and is dropped at the root), the empty result is \<open>.\<close>. The elements kept so far
  are held in reverse.
\<close>

fun cleanElems :: "bool \<Rightarrow> string list \<Rightarrow> string list \<Rightarrow> string list" where
  "cleanElems rooted [] out = rev out"
| "cleanElems rooted (e # es) out =
     (if e = [] \<or> e = ''.'' then cleanElems rooted es out
      else if e = ''..'' then
        (case out of
           [] \<Rightarrow> if rooted then cleanElems rooted es out else cleanElems rooted es (e # out)
         | t # ts \<Rightarrow> if t = ''..'' then cleanElems rooted es (e # out)
                     else cleanElems rooted es ts)
      else cleanElems rooted es (e # out))"

definition Clean :: "string \<Rightarrow> string" where
  "Clean p =
     (let rooted = (take 1 p = ''/'');
          s = (if rooted then ''/'' else []) @ Join (cleanElems rooted (Split p CHR ''/'') []) ''/''
      in if s = [] then ''.'' else s)"

text \<open>\<open>path.Join\<close>: leading empty elements are ignored, the rest is joined and cleaned.\<close>

definition path_Join :: "string list \<Rightarrow> string" where
  "path_Join elem =
     (case dropWhile (\<lambda>e. e = []) elem of
        [] \<Rightarrow> []
      | e # es \<Rightarrow> Clean (Join (e # es) ''/''))"

text \<open>\<open>fmt.Sprintf("%d", i)\<close>: the decimal digits, with a minus sign below zero.\<close>

fun decimal :: "nat \<Rightarrow> string" where
  "decimal n =
     (if n < 10 then [''0123456789'' ! n]
      else decimal (n div 10) @ [''0123456789'' ! (n mod 10)])"

declare decimal.simps [simp del]

definition Sprintf_d :: "int \<Rightarrow> string" where
  "Sprintf_d i = (if i < 0 then CHR ''-'' # decimal (nat (- i)) else decimal (nat i))"

text \<open>
  Go errors are values. \<open>errorString\<close> is what \<open>errors.New\<close> builds; the other
  constructors stand for the errors of \<open>strconv\<close>, of \<open>encoding/json\<close> and of the
  key-value store. A run-time panic is not an error value: it is the \<open>Inl\<close> side of
  \<open>panic + 'a\<close>.
\<close>

datatype error =
    errorString string
  | NumError string
  | UnmarshalError string
  | StoreError string

datatype panic = IndexOutOfRange | NilDereference

text \<open>
  \<open>strconv.Atoi\<close>: an optional sign and at least one decimal digit, nothing else; the
  value must fit the 64-bit \<open>int\<close>.
\<close>

definition isDigit :: "char \<Rightarrow> bool" where
  "isDigit c = (c \<in> set ''0123456789'')"

definition digitVal :: "char \<Rightarrow> nat" where
  "digitVal c =
     (case map_of (zip ''0123456789'' [0, 1, 2, 3, 4, 5, 6, 7, 8, 9]) c of
        Some d \<Rightarrow> d
      | None \<Rightarrow> 0)"

definition Atoi :: "string \<Rightarrow> error + int" where
  "Atoi s =
     (let neg = (take 1 s = ''-'');
          ds = (if take 1 s = ''-'' \<or> take 1 s = ''+'' then drop 1 s else s);
          n = int (fold (\<lambda>c acc. 10 * acc + digitVal c) ds 0);
          i = (if neg then - n else n)
      in if ds = [] \<or> \<not> list_all isDigit ds then Inl (NumError s)
         else if i < - (2 ^ 63) \<or> 2 ^ 63 \<le> i then Inl (NumError s)
         else Inr i)"

section \<open>Package \<open>repository\<close>\<close>

definition RepositoryRoot :: string where
  "RepositoryRoot = ''mantl-install/repository''"

record Repository =
  repo_Name :: string
  repo_Index :: int

type_synonym RepositoryCollection = "Repository list"

definition IsBase :: "Repository \<Rightarrow> bool" where
  "IsBase r = (repo_Index r = 0)"

definition Base :: "RepositoryCollection \<Rightarrow> Repository option" where
  "Base c = find (\<lambda>repo. repo_Index repo = 0) c"

definition Layers :: "RepositoryCollection \<Rightarrow> RepositoryCollection" where
  "Layers c = filter (\<lambda>repo. \<not> IsBase repo) c"

definition PackageIndexKey :: "Repository \<Rightarrow> string" where
  "PackageIndexKey r =
     path_Join [RepositoryRoot, Sprintf_d (repo_Index r), ''repo/meta/index.json'']"

definition PackagesKey :: "Repository \<Rightarrow> string" where
  "PackagesKey r = path_Join [RepositoryRoot, Sprintf_d (repo_Index r), ''repo/packages'']"

text \<open>
  The key-value store of the consul client, as the two calls the source makes:
  \<open>Get key\<close> is \<open>Inl err\<close> for a failed read, \<open>Inr None\<close> for a \<open>nil\<close> pair (no
  such key) and \<open>Inr (Some value)\<close> for a pair with that value; \<open>Keys prefix sep\<close>
  lists keys.
\<close>

record KV =
  Get :: "string \<Rightarrow> error + string option"
  Keys :: "string \<Rightarrow> string \<Rightarrow> error + string list"

text \<open>
  \<open>name\<close> returns \<open>("", err)\<close> when the pair is \<open>nil\<close>; with no read error that
  \<open>err\<close> is \<open>nil\<close>, so the caller sees the empty name and no error.
\<close>

definition name_repo :: "KV \<Rightarrow> int \<Rightarrow> error + string" where
  "name_repo client idx =
     (case Get client (path_Join [RepositoryRoot, Sprintf_d idx, ''name'']) of
        Inl err \<Rightarrow> Inl err
      | Inr None \<Rightarrow> Inr []
      | Inr (Some v) \<Rightarrow> Inr v)"

fun parseIndexes :: "string list \<Rightarrow> int list" where
  "parseIndexes [] = []"
| "parseIndexes (key # keys) =
     (let parts = Split (TrimSuffix key ''/'') CHR ''/'';
          sidx = last parts
      in case Atoi sidx of
           Inl err \<Rightarrow> parseIndexes keys
         | Inr idx \<Rightarrow> idx # parseIndexes keys)"

definition indexes :: "KV \<Rightarrow> error + int list" where
  "indexes client =
     (case Keys client (RepositoryRoot @ ''/'') ''/'' of
        Inl err \<Rightarrow> Inl err
      | Inr keys \<Rightarrow> Inr (sort (parseIndexes keys)))"

fun namedRepositories :: "KV \<Rightarrow> int list \<Rightarrow> RepositoryCollection" where
  "namedRepositories client [] = []"
| "namedRepositories client (idx # idxs) =
     (case name_repo client idx of
        Inl err \<Rightarrow> namedRepositories client idxs
      | Inr n \<Rightarrow> \<lparr>repo_Name = n, repo_Index = idx\<rparr> # namedRepositories client idxs)"

definition Repositories :: "KV \<Rightarrow> error + RepositoryCollection" where
  "Repositories client =
     (case indexes client of
        Inl err \<Rightarrow> Inl err
      | Inr idxs \<Rightarrow> Inr (namedRepositories client idxs))"

text \<open>\<open>BaseRepository\<close> returns \<open>(nil, nil)\<close> when the name key is absent: \<open>Inr None\<close>.\<close>

definition BaseRepository :: "KV \<Rightarrow> error + Repository option" where
  "BaseRepository client =
     (case Get client (path_Join [RepositoryRoot, ''0'', ''name'']) of
        Inl err \<Rightarrow> Inl err
      | Inr None \<Rightarrow> Inr None
      | Inr (Some v) \<Rightarrow> Inr (Some \<lparr>repo_Name = v, repo_Index = 0\<rparr>))"

definition Layers_client :: "KV \<Rightarrow> error + RepositoryCollection" where
  "Layers_client client =
     (case Repositories client of
        Inl err \<Rightarrow> Inl err
      | Inr repos \<Rightarrow> Inr (Layers repos))"

section \<open>Package \<open>install\<close>: packages and versions\<close>

record PackageVersion =
  pv_Version :: string
  pv_Index :: string
  pv_Supported :: bool

text \<open>
  \<open>packageVersionByMostRecent.Less(i, j)\<close> is \<open>p[j].Index < p[i].Index\<close>: the element
  with the greater release index comes first.
\<close>

definition Less :: "PackageVersion \<Rightarrow> PackageVersion \<Rightarrow> bool" where
  "Less a b = (pv_Index b < pv_Index a)"

text \<open>
  \<open>sort.Sort\<close> leaves a permutation of the slice in which no element is \<open>Less\<close> than
  an element before it; package \<open>sort\<close> does not say which of two elements with equal
  keys comes first. The model is the insertion sort that \<open>sort.Sort\<close> runs on a short
  slice: each element in turn moves left while it is \<open>Less\<close> than the element
  before it. \<open>insertSorted\<close> works on the reversed prefix, nearest element first.
\<close>

fun insertSorted :: "PackageVersion \<Rightarrow> PackageVersion list \<Rightarrow> PackageVersion list" where
  "insertSorted x [] = [x]"
| "insertSorted x (y # ys) = (if Less x y then y # insertSorted x ys else x # y # ys)"

definition sort_Sort :: "PackageVersion list \<Rightarrow> PackageVersion list" where
  "sort_Sort p = foldl (\<lambda>sorted x. rev (insertSorted x (rev sorted))) [] p"

text \<open>
  \<open>Versions\<close> is a Go map from version string to \<open>*PackageVersion\<close>. It is an
  association list with distinct keys; the order of the list is the order in which
  \<open>range\<close> visits the entries, which Go leaves unspecified, so two lists with the same
  entries are the same map. Every key has its own \<open>PackageVersion\<close> (see
  \<open>ToPackage\<close>), so updating through the pointer changes that entry only.
\<close>

record Package =
  Name :: string
  Description :: string
  Framework :: bool
  CurrentVersion :: string
  Supported :: bool
  Tags :: "string list"
  Versions :: "(string \<times> PackageVersion) list"

text \<open>\<open>[]rune(p.Name)[0]\<close> panics with an index out of range when the name is empty.\<close>

definition ContainerId :: "Package \<Rightarrow> panic + string" where
  "ContainerId p =
     (case Name p of
        [] \<Rightarrow> Inl IndexOutOfRange
      | c # cs \<Rightarrow> Inr (ToUpper [c]))"

definition PackageKey :: "Package \<Rightarrow> panic + string" where
  "PackageKey p =
     (case ContainerId p of
        Inl pn \<Rightarrow> Inl pn
      | Inr cid \<Rightarrow> Inr (path_Join [cid, Name p]))"

definition PackageVersionKey :: "Package \<Rightarrow> string \<Rightarrow> panic + string" where
  "PackageVersionKey p index =
     (case PackageKey p of
        Inl pn \<Rightarrow> Inl pn
      | Inr pkey \<Rightarrow> Inr (path_Join [pkey, index]))"

definition PackageVersions :: "Package \<Rightarrow> PackageVersion list" where
  "PackageVersions p = map snd (Versions p)"

definition SupportedVersions :: "Package \<Rightarrow> PackageVersion list" where
  "SupportedVersions p = filter pv_Supported (PackageVersions p)"

definition HasSupportedVersion :: "Package \<Rightarrow> bool" where
  "HasSupportedVersion p = (length (SupportedVersions p) > 0)"

definition FindPackageVersion :: "Package \<Rightarrow> string \<Rightarrow> PackageVersion option" where
  "FindPackageVersion p version =
     find (\<lambda>v. EqualFold (pv_Version v) (TrimSpace version)) (PackageVersions p)"

definition FindLatestPackageVersion :: "Package \<Rightarrow> PackageVersion option" where
  "FindLatestPackageVersion p =
     (let versions = sort_Sort (PackageVersions p)
      in if length versions > 0 then Some (versions ! 0) else None)"

type_synonym PackageCollection = "Package list"

record packageIndexEntry =
  entry_CurrentVersion :: string
  entry_Description :: string
  entry_Framework :: bool
  entry_Name :: string
  entry_Tags :: "string list"
  entry_Versions :: "(string \<times> string) list"

definition ToPackage :: "packageIndexEntry \<Rightarrow> Package" where
  "ToPackage p =
     \<lparr>Name = entry_Name p,
      Description = entry_Description p,
      Framework = entry_Framework p,
      CurrentVersion = entry_CurrentVersion p,
      Supported = False,
      Tags = entry_Tags p,
      Versions =
        map (\<lambda>(version, index).
               (version, \<lparr>pv_Version = version, pv_Index = index, pv_Supported = False\<rparr>))
            (entry_Versions p)\<rparr>"

section \<open>Configuration schema, defaults and merge\<close>

text \<open>
  A value of type \<open>interface{}\<close> as \<open>encoding/json\<close> produces it: \<open>JNull\<close> is the
  \<open>nil\<close> interface, \<open>JObj\<close> a \<open>map[string]interface{}\<close> (an association list with
  distinct keys, as above). The code never computes on a number; an integer stands for it.
\<close>

datatype json =
    JNull
  | JBool bool
  | JNum int
  | JStr string
  | JArr "json list"
  | JObj "(string \<times> json) list"

datatype packageConfigGroup =
  PackageConfigGroup
    (g_Description: string)
    (g_Type: string)
    (g_AdditionalProperties: bool)
    (g_Properties: "(string \<times> packageConfigGroup) list")
    (g_Required: "string list")
    (g_Minimum: json)
    (g_Default: json)

text \<open>
  \<open>defaultConfig\<close>: \<open>defaultConfigLoop\<close> is the \<open>for ... range g.Properties\<close> loop,
  with the map \<open>defaults\<close> built so far.
\<close>

fun defaultConfig :: "packageConfigGroup \<Rightarrow> (string \<times> json) list"
  and defaultConfigLoop ::
    "(string \<times> packageConfigGroup) list \<Rightarrow> (string \<times> json) list \<Rightarrow> (string \<times> json) list"
where
  "defaultConfig (PackageConfigGroup d t a props r m df) = defaultConfigLoop props []"
| "defaultConfigLoop [] defaults = defaults"
| "defaultConfigLoop ((groupName, grp) # rest) defaults =
     (if g_Default grp \<noteq> JNull then
        defaultConfigLoop rest (AList.update groupName (g_Default grp) defaults)
      else if g_Type grp = ''object'' then
        defaultConfigLoop rest (AList.update groupName (JObj (defaultConfig grp)) defaults)
      else defaultConfigLoop rest defaults)"

text \<open>
  \<open>mergeConfig\<close> writes into \<open>config\<close> and returns it; the model returns the updated
  map. The second argument is consumed entry by entry, as \<open>range override\<close> does.
\<close>

fun mergeConfig :: "(string \<times> json) list \<Rightarrow> (string \<times> json) list \<Rightarrow> (string \<times> json) list" where
  "mergeConfig config [] = config"
| "mergeConfig config ((k, v) # rest) =
     mergeConfig
       (case (map_of config k, v) of
          (Some (JObj configVal), JObj overrideVal) \<Rightarrow>
            AList.update k (JObj (mergeConfig configVal overrideVal)) config
        | _ \<Rightarrow> AList.update k v config)
       rest"

section \<open>Package definitions\<close>

record packageDefinition =
  commandJson :: string
  configJson :: string
  marathonJson :: string
  packageJson :: string
  optionsJson :: string
  name :: string
  version :: string
  release :: string
  framework :: bool
  frameworkName :: string

definition IsValid :: "packageDefinition \<Rightarrow> bool" where
  "IsValid d =
     (length (configJson d) > 0 \<and>
      length (marathonJson d) > 0 \<and>
      length (packageJson d) > 0)"

text \<open>
  \<open>json.Unmarshal\<close> is a library function; its three uses are parameters of the model,
  one per target type: \<open>Inl err\<close> for a document that does not parse.
\<close>

record Unmarshal =
  intoSchema :: "string \<Rightarrow> error + packageConfigGroup"
  intoOptions :: "string \<Rightarrow> error + (string \<times> json) list"
  intoIndex :: "string \<Rightarrow> error + packageIndexEntry list"

definition ConfigSchema :: "Unmarshal \<Rightarrow> packageDefinition \<Rightarrow> error + packageConfigGroup" where
  "ConfigSchema J d =
     (if length (configJson d) > 0 then
        (case intoSchema J (configJson d) of
           Inl err \<Rightarrow> Inl err
         | Inr config \<Rightarrow> Inr config)
      else Inr (PackageConfigGroup [] [] False [] [] JNull JNull))"

definition Options :: "Unmarshal \<Rightarrow> packageDefinition \<Rightarrow> error + (string \<times> json) list" where
  "Options J d =
     (if length (optionsJson d) > 0 then
        (case intoOptions J (optionsJson d) of
           Inl err \<Rightarrow> Inl err
         | Inr options \<Rightarrow> Inr options)
      else Inr [])"

definition MergedConfig :: "Unmarshal \<Rightarrow> packageDefinition \<Rightarrow> error + (string \<times> json) list" where
  "MergedConfig J d =
     (case ConfigSchema J d of
        Inl err \<Rightarrow> Inl err
      | Inr schema \<Rightarrow>
          (case Options J d of
             Inl err \<Rightarrow> Inl err
           | Inr options \<Rightarrow> Inr (mergeConfig (defaultConfig schema) options)))"

section \<open>The installer: catalog and package definition\<close>

record Install =
  kv :: KV

text \<open>
  Modelled from the spec: the methods \<open>Install.Repositories\<close>,
  \<open>Install.LayerRepositories\<close> and \<open>Install.BaseRepository\<close> are not in the source
  file. Following sections 4.1 and 4.4 (the full layer sequence in ascending index, the
  override layers in ascending index, the index-0 layer) they are the functions
  \<open>Repositories\<close>, \<open>Layers\<close> and \<open>BaseRepository\<close> of package \<open>repository\<close> on
  the installer's store.
\<close>

definition Install_Repositories :: "Install \<Rightarrow> error + RepositoryCollection" where
  "Install_Repositories install = Repositories (kv install)"

definition Install_LayerRepositories :: "Install \<Rightarrow> error + RepositoryCollection" where
  "Install_LayerRepositories install = Layers_client (kv install)"

definition Install_BaseRepository :: "Install \<Rightarrow> error + Repository option" where
  "Install_BaseRepository install = BaseRepository (kv install)"

definition getPackageDefinitionFile :: "Install \<Rightarrow> string \<Rightarrow> string \<Rightarrow> string" where
  "getPackageDefinitionFile install nm key =
     (case Get (kv install) (path_Join [key, nm]) of
        Inl err \<Rightarrow> []
      | Inr None \<Rightarrow> []
      | Inr (Some v) \<Rightarrow> v)"

text \<open>
  \<open>setSupportedVersions\<close>. \<open>probeLayers\<close> is the inner loop over the layers for one
  version: every layer assigns \<open>Supported\<close>. After a failed read the pair is \<open>nil\<close>.
  \<open>probeVersions\<close> is the outer loop over \<open>pkg.Versions\<close>.
\<close>

fun probeLayers ::
  "Install \<Rightarrow> Package \<Rightarrow> RepositoryCollection \<Rightarrow> PackageVersion \<Rightarrow> panic + PackageVersion"
where
  "probeLayers install pkg [] pkgVersion = Inr pkgVersion"
| "probeLayers install pkg (layer # layers) pkgVersion =
     (case PackageVersionKey pkg (pv_Index pkgVersion) of
        Inl pn \<Rightarrow> Inl pn
      | Inr vkey \<Rightarrow>
          (let versionKey = path_Join [PackagesKey layer, vkey, ''mantl.json''];
               kp = (case Get (kv install) versionKey of Inl err \<Rightarrow> None | Inr pair \<Rightarrow> pair)
           in probeLayers install pkg layers (pkgVersion\<lparr>pv_Supported := (kp \<noteq> None)\<rparr>)))"

fun probeVersions ::
  "Install \<Rightarrow> Package \<Rightarrow> RepositoryCollection \<Rightarrow> (string \<times> PackageVersion) list \<Rightarrow>
     panic + (string \<times> PackageVersion) list"
where
  "probeVersions install pkg layers [] = Inr []"
| "probeVersions install pkg layers ((ver, pkgVersion) # rest) =
     (case probeLayers install pkg layers pkgVersion of
        Inl pn \<Rightarrow> Inl pn
      | Inr pv \<Rightarrow>
          (case probeVersions install pkg layers rest of
             Inl pn \<Rightarrow> Inl pn
           | Inr vs \<Rightarrow> Inr ((ver, pv) # vs)))"

definition setSupportedVersions :: "Install \<Rightarrow> Package \<Rightarrow> panic + Package" where
  "setSupportedVersions install pkg =
     (case Install_LayerRepositories install of
        Inl err \<Rightarrow> Inr pkg
      | Inr layers \<Rightarrow>
          (case probeVersions install pkg layers (Versions pkg) of
             Inl pn \<Rightarrow> Inl pn
           | Inr vs \<Rightarrow>
               (let pkg' = pkg\<lparr>Versions := vs\<rparr>
                in Inr (pkg'\<lparr>Supported := HasSupportedVersion pkg'\<rparr>))))"

definition setCurrentVersion :: "Package \<Rightarrow> Package" where
  "setCurrentVersion pkg =
     (if \<not> Supported pkg \<or> \<not> HasSupportedVersion pkg then pkg
      else if (case map_of (Versions pkg) (CurrentVersion pkg) of
                 Some cv \<Rightarrow> pv_Supported cv
               | None \<Rightarrow> False) then pkg
      else
        (let versions = sort_Sort (SupportedVersions pkg)
         in case find pv_Supported versions of
              Some pv \<Rightarrow> pkg\<lparr>CurrentVersion := pv_Version pv\<rparr>
            | None \<Rightarrow> pkg))"

text \<open>
  \<open>packageIndexEntries\<close> returns \<open>(nil, err)\<close> when the base repository or the index
  pair is \<open>nil\<close>; with no read error that is no entries and no error.
\<close>

definition packageIndexEntries :: "Unmarshal \<Rightarrow> Install \<Rightarrow> error + packageIndexEntry list" where
  "packageIndexEntries J install =
     (case Install_BaseRepository install of
        Inl err \<Rightarrow> Inl err
      | Inr None \<Rightarrow> Inr []
      | Inr (Some baseRepo) \<Rightarrow>
          (case Get (kv install) (PackageIndexKey baseRepo) of
             Inl err \<Rightarrow> Inl err
           | Inr None \<Rightarrow> Inr []
           | Inr (Some v) \<Rightarrow>
               (case intoIndex J v of
                  Inl err \<Rightarrow> Inl err
                | Inr entries \<Rightarrow> Inr entries)))"

fun buildPackages :: "Install \<Rightarrow> packageIndexEntry list \<Rightarrow> panic + PackageCollection" where
  "buildPackages install [] = Inr []"
| "buildPackages install (entry # rest) =
     (case setSupportedVersions install (ToPackage entry) of
        Inl pn \<Rightarrow> Inl pn
      | Inr pkg \<Rightarrow>
          (case buildPackages install rest of
             Inl pn \<Rightarrow> Inl pn
           | Inr pkgs \<Rightarrow> Inr (setCurrentVersion pkg # pkgs)))"

definition getPackages :: "Unmarshal \<Rightarrow> Install \<Rightarrow> panic + (error + PackageCollection)" where
  "getPackages J install =
     (case packageIndexEntries J install of
        Inl err \<Rightarrow> Inr (Inl err)
      | Inr entries \<Rightarrow>
          (case buildPackages install entries of
             Inl pn \<Rightarrow> Inl pn
           | Inr packages \<Rightarrow> Inr (Inr packages)))"

text \<open>\<open>getPackageByName\<close> returns \<open>(nil, nil)\<close> when no package matches: \<open>Inr None\<close>.\<close>

definition getPackageByName ::
  "Unmarshal \<Rightarrow> Install \<Rightarrow> string \<Rightarrow> panic + (error + Package option)"
where
  "getPackageByName J install nm =
     (case getPackages J install of
        Inl pn \<Rightarrow> Inl pn
      | Inr (Inl err) \<Rightarrow> Inr (Inl err)
      | Inr (Inr packages) \<Rightarrow>
          Inr (Inr (find (\<lambda>p. EqualFold (TrimSpace nm) (Name p)) packages)))"

text \<open>
  \<open>GetPackageDefinition\<close> in its three parts. \<open>findVersion\<close> is the choice of the
  version (the exact match, else the latest). \<open>collectFiles\<close> is the loop over the
  repositories: each of the five files replaces what is held when the layer has a
  non-empty one.
\<close>

definition findVersion :: "Package \<Rightarrow> string \<Rightarrow> PackageVersion option" where
  "findVersion pkg ver =
     (case FindPackageVersion pkg ver of
        None \<Rightarrow> FindLatestPackageVersion pkg
      | Some pkgVersion \<Rightarrow> Some pkgVersion)"

fun collectFiles ::
  "Install \<Rightarrow> Package \<Rightarrow> PackageVersion \<Rightarrow> RepositoryCollection \<Rightarrow> packageDefinition \<Rightarrow>
     panic + packageDefinition"
where
  "collectFiles install pkg pkgVersion [] pkgDef = Inr pkgDef"
| "collectFiles install pkg pkgVersion (repo # repositories) pkgDef =
     (case PackageVersionKey pkg (pv_Index pkgVersion) of
        Inl pn \<Rightarrow> Inl pn
      | Inr vkey \<Rightarrow>
          (let pkgKey = path_Join [PackagesKey repo, vkey];
               d1 = (let data = getPackageDefinitionFile install ''command.json'' pkgKey
                     in if length data > 0 then pkgDef\<lparr>commandJson := data\<rparr> else pkgDef);
               d2 = (let data = getPackageDefinitionFile install ''config.json'' pkgKey
                     in if length data > 0 then d1\<lparr>configJson := data\<rparr> else d1);
               d3 = (let data = getPackageDefinitionFile install ''marathon.json'' pkgKey
                     in if length data > 0 then d2\<lparr>marathonJson := data\<rparr> else d2);
               d4 = (let data = getPackageDefinitionFile install ''package.json'' pkgKey
                     in if length data > 0 then d3\<lparr>packageJson := data\<rparr> else d3);
               d5 = (let data = getPackageDefinitionFile install ''mantl.json'' pkgKey
                     in if length data > 0 then d4\<lparr>optionsJson := data\<rparr> else d4)
           in collectFiles install pkg pkgVersion repositories d5))"

text \<open>
  A package that \<open>getPackageByName\<close> did not find is a \<open>nil\<close> pointer; the call
  \<open>pkg.FindPackageVersion\<close> has a value receiver and dereferences it.
\<close>

definition GetPackageDefinition ::
  "Unmarshal \<Rightarrow> Install \<Rightarrow> string \<Rightarrow> string \<Rightarrow> panic + (error + packageDefinition)"
where
  "GetPackageDefinition J install nm ver =
     (case getPackageByName J install nm of
        Inl pn \<Rightarrow> Inl pn
      | Inr (Inl err) \<Rightarrow> Inr (Inl err)
      | Inr (Inr None) \<Rightarrow> Inl NilDereference
      | Inr (Inr (Some pkg)) \<Rightarrow>
          (case findVersion pkg ver of
             None \<Rightarrow>
               Inr (Inl (errorString (''Could not find installable version for '' @ nm)))
           | Some pkgVersion \<Rightarrow>
               (case Install_Repositories install of
                  Inl err \<Rightarrow> Inr (Inl err)
                | Inr repositories \<Rightarrow>
                    (case collectFiles install pkg pkgVersion repositories
                            \<lparr>commandJson = [], configJson = [], marathonJson = [],
                             packageJson = [], optionsJson = [],
                             name = Name pkg, version = pv_Version pkgVersion,
                             release = pv_Index pkgVersion, framework = Framework pkg,
                             frameworkName = []\<rparr> of
                       Inl pn \<Rightarrow> Inl pn
                     | Inr pkgDef \<Rightarrow>
                         (case MergedConfig J pkgDef of
                            Inl err \<Rightarrow> Inr (Inl err)
                          | Inr config \<Rightarrow>
                              (case map_of config ''framework-name'' of
                                 Some (JStr fwName) \<Rightarrow>
                                   Inr (Inr (pkgDef\<lparr>frameworkName := fwName\<rparr>))
                               | _ \<Rightarrow> Inr (Inr pkgDef)))))))"

section \<open>Example inputs\<close>

text \<open>
  A store with the base repository and two override layers. The index lists one package,
  \<open>zk\<close>, with the single version \<open>1.0\<close> of release index \<open>5\<close>; the first layer
  holds an options document for it, the second holds none.
\<close>

definition zkEntry :: packageIndexEntry where
  "zkEntry =
     \<lparr>entry_CurrentVersion = ''1.0'', entry_Description = ''ZooKeeper'',
      entry_Framework = False, entry_Name = ''zk'', entry_Tags = [],
      entry_Versions = [(''1.0'', ''5'')]\<rparr>"

definition twoLayerStore :: KV where
  "twoLayerStore =
     \<lparr>Get = (\<lambda>key. Inr (map_of
         [(''mantl-install/repository/0/name'', ''base''),
          (''mantl-install/repository/1/name'', ''first''),
          (''mantl-install/repository/2/name'', ''second''),
          (''mantl-install/repository/0/repo/meta/index.json'', ''index''),
          (''mantl-install/repository/1/repo/packages/Z/zk/5/mantl.json'', ''{}'')] key)),
      Keys = (\<lambda>prefix sep.
         Inr [''mantl-install/repository/0/'', ''mantl-install/repository/1/'',
              ''mantl-install/repository/2/''])\<rparr>"

definition zkUnmarshal :: Unmarshal where
  "zkUnmarshal =
     \<lparr>intoSchema = (\<lambda>doc. Inr (PackageConfigGroup [] [] False [] [] JNull JNull)),
      intoOptions = (\<lambda>doc. Inr []),
      intoIndex = (\<lambda>doc. Inr [zkEntry])\<rparr>"

text \<open>A definition with every document but \<open>command.json\<close>.\<close>

definition noCommandDefinition :: packageDefinition where
  "noCommandDefinition =
     \<lparr>commandJson = [], configJson = ''{}'', marathonJson = ''{}'', packageJson = ''{}'',
      optionsJson = [], name = ''zk'', version = ''1.0'', release = ''5'',
      framework = False, frameworkName = []\<rparr>"

text \<open>
  A schema with a scalar default, an object without a default (one of its children has a
  default, the other has none), a scalar without a default and an object with no
  properties.
\<close>

definition exampleSchema :: packageConfigGroup where
  "exampleSchema =
     PackageConfigGroup [] ''object'' False
       [(''instances'', PackageConfigGroup [] ''integer'' False [] [] JNull (JNum 3)),
        (''zookeeper'',
           PackageConfigGroup [] ''object'' False
             [(''port'', PackageConfigGroup [] ''integer'' False [] [] JNull (JStr ''2181'')),
              (''note'', PackageConfigGroup [] ''string'' False [] [] JNull JNull)]
             [] JNull JNull),
        (''label'', PackageConfigGroup [] ''string'' False [] [] JNull JNull),
        (''extra'', PackageConfigGroup [] ''object'' False [] [] JNull JNull)]
       [] JNull JNull"

text \<open>
  A supported package whose declared current version \<open>0.9\<close> is not supported; its
  supported versions are \<open>1.0\<close> (release index \<open>5\<close>) and \<open>1.2\<close> (release index
  \<open>9\<close>).
\<close>

definition threeVersions :: Package where
  "threeVersions =
     \<lparr>Name = ''zk'', Description = [], Framework = False, CurrentVersion = ''0.9'',
      Supported = True, Tags = [],
      Versions =
        [(''1.0'', \<lparr>pv_Version = ''1.0'', pv_Index = ''5'', pv_Supported = True\<rparr>),
         (''0.9'', \<lparr>pv_Version = ''0.9'', pv_Index = ''7'', pv_Supported = False\<rparr>),
         (''1.2'', \<lparr>pv_Version = ''1.2'', pv_Index = ''9'', pv_Supported = True\<rparr>)]\<rparr>"

text \<open>A package one of whose version keys is the empty string.\<close>

definition emptyKeyPackage :: Package where
  "emptyKeyPackage =
     \<lparr>Name = ''zk'', Description = [], Framework = False, CurrentVersion = ''2.0'',
      Supported = False, Tags = [],
      Versions =
        [([], \<lparr>pv_Version = [], pv_Index = ''1'', pv_Supported = False\<rparr>),
         (''2.0'', \<lparr>pv_Version = ''2.0'', pv_Index = ''9'', pv_Supported = False\<rparr>)]\<rparr>"

text \<open>
  A supported package with two supported versions of the same release index, and a
  declared current version that is not one of its versions.
\<close>

definition tiePackage :: Package where
  "tiePackage =
     \<lparr>Name = ''zk'', Description = [], Framework = False, CurrentVersion = ''0.9'',
      Supported = True, Tags = [],
      Versions =
        [(''1.0'', \<lparr>pv_Version = ''1.0'', pv_Index = ''5'', pv_Supported = True\<rparr>),
         (''1.1'', \<lparr>pv_Version = ''1.1'', pv_Index = ''5'', pv_Supported = True\<rparr>)]\<rparr>"

text \<open>
  A store with the base repository and one override layer, listed out of order. The
  index lists \<open>zk\<close> with the versions 1.0 (release index 5) and 1.2 (release index 9)
  and the declared current version 0.9. The layer holds an options document for both
  versions. For release 9 the base holds a schema, a template and the metadata, and the
  layer holds a schema of its own; no layer holds a command document.
\<close>

definition twoVersionsEntry :: packageIndexEntry where
  "twoVersionsEntry =
     \<lparr>entry_CurrentVersion = ''0.9'', entry_Description = ''ZooKeeper'',
      entry_Framework = False, entry_Name = ''zk'', entry_Tags = [],
      entry_Versions = [(''1.0'', ''5''), (''1.2'', ''9'')]\<rparr>"

definition layeredStore :: KV where
  "layeredStore =
     \<lparr>Get = (\<lambda>key. Inr (map_of
         [(''mantl-install/repository/0/name'', ''base''),
          (''mantl-install/repository/1/name'', ''overrides''),
          (''mantl-install/repository/0/repo/meta/index.json'', ''index''),
          (''mantl-install/repository/1/repo/packages/Z/zk/5/mantl.json'', ''options-5''),
          (''mantl-install/repository/1/repo/packages/Z/zk/9/mantl.json'', ''options-9''),
          (''mantl-install/repository/0/repo/packages/Z/zk/9/config.json'', ''base-schema''),
          (''mantl-install/repository/1/repo/packages/Z/zk/9/config.json'', ''layer-schema''),
          (''mantl-install/repository/0/repo/packages/Z/zk/9/marathon.json'', ''base-template''),
          (''mantl-install/repository/0/repo/packages/Z/zk/9/package.json'', ''base-metadata'')]
         key)),
      Keys = (\<lambda>prefix sep.
         Inr [''mantl-install/repository/1/'', ''mantl-install/repository/0/''])\<rparr>"

definition layeredUnmarshal :: Unmarshal where
  "layeredUnmarshal =
     \<lparr>intoSchema = (\<lambda>doc. Inr exampleSchema),
      intoOptions = (\<lambda>doc. Inr [(''instances'', JNum 5)]),
      intoIndex = (\<lambda>doc. Inr [twoVersionsEntry])\<rparr>"

definition layeredPackage :: Package where
  "layeredPackage =
     \<lparr>Name = ''zk'', Description = ''ZooKeeper'', Framework = False, CurrentVersion = ''1.2'',
      Supported = True, Tags = [],
      Versions =
        [(''1.0'', \<lparr>pv_Version = ''1.0'', pv_Index = ''5'', pv_Supported = True\<rparr>),
         (''1.2'', \<lparr>pv_Version = ''1.2'', pv_Index = ''9'', pv_Supported = True\<rparr>)]\<rparr>"

definition emptyDefinition :: packageDefinition where
  "emptyDefinition =
     \<lparr>commandJson = [], configJson = [], marathonJson = [], packageJson = [],
      optionsJson = [], name = ''zk'', version = ''1.2'', release = ''9'',
      framework = False, frameworkName = []\<rparr>"

section \<open>Vocabulary of the properties\<close>

text \<open>
  The package invariant of the data model: the package is supported exactly when one of
  its versions is, and the current version of a supported package is the key of a
  supported version.
\<close>

definition catalogInvariant :: "Package \<Rightarrow> bool" where
  "catalogInvariant p =
     ((Supported p \<longleftrightarrow> (\<exists>v\<in>set (PackageVersions p). pv_Supported v)) \<and>
      (Supported p \<longrightarrow>
         (\<exists>cv. map_of (Versions p) (CurrentVersion p) = Some cv \<and> pv_Supported cv)))"

text \<open>Every version is stored under its own version string, as \<open>ToPackage\<close> stores it.\<close>

definition keyed :: "(string \<times> PackageVersion) list \<Rightarrow> bool" where
  "keyed vs = list_all (\<lambda>(k, v). pv_Version v = k) vs"

text \<open>
  \<open>documentAt\<close> is the document \<open>nm\<close> of a package version in one layer, as the loop
  of \<open>GetPackageDefinition\<close> reads it (empty when absent, unreadable or empty).
  \<open>lastWriterWins\<close> is last-writer-wins for one document: if no layer has it, what was
  held stays; otherwise the result is the document of a layer that has it and whose index
  is greatest among the layers that have it. \<open>lastNonEmpty\<close> is the last non-empty
  entry of a list, or the value given when there is none.
\<close>

definition documentAt :: "Install \<Rightarrow> Package \<Rightarrow> PackageVersion \<Rightarrow> string \<Rightarrow> Repository \<Rightarrow> string" where
  "documentAt install pkg pkgVersion nm repo =
     (case PackageVersionKey pkg (pv_Index pkgVersion) of
        Inl pn \<Rightarrow> []
      | Inr vkey \<Rightarrow> getPackageDefinitionFile install nm (path_Join [PackagesKey repo, vkey]))"

definition lastWriterWins ::
  "(Repository \<Rightarrow> string) \<Rightarrow> RepositoryCollection \<Rightarrow> string \<Rightarrow> string \<Rightarrow> bool"
where
  "lastWriterWins doc repositories before after =
     (if \<forall>repo\<in>set repositories. doc repo = [] then after = before
      else \<exists>repo\<in>set repositories.
             doc repo \<noteq> [] \<and> after = doc repo \<and>
             (\<forall>r\<in>set repositories. doc r \<noteq> [] \<longrightarrow> repo_Index r \<le> repo_Index repo))"

fun lastNonEmpty :: "string list \<Rightarrow> string \<Rightarrow> string" where
  "lastNonEmpty [] before = before"
| "lastNonEmpty (x # xs) before = lastNonEmpty xs (if x \<noteq> [] then x else before)"

section \<open>Properties\<close>

subsection \<open>Validity of a package definition\<close>

text \<open>
  C3, as the code has it: a package definition is valid exactly when the config schema,
  the marathon template and the package metadata are non-empty. Neither the command
  document nor the options document takes part: changing them never changes validity.
\<close>

theorem IsValid_three_documents:
  "IsValid d = (configJson d \<noteq> [] \<and> marathonJson d \<noteq> [] \<and> packageJson d \<noteq> []) \<and>
   IsValid (d\<lparr>commandJson := c, optionsJson := opt\<rparr>) = IsValid d"
  by (simp add: IsValid_def)

text \<open>
  C3 as stated fails: the definition without a command document is valid, although not
  all four of command, schema, template and metadata are non-empty.
\<close>

theorem IsValid_command_counterexample:
  "\<not> (IsValid noCommandDefinition \<longleftrightarrow>
        (commandJson noCommandDefinition \<noteq> [] \<and> configJson noCommandDefinition \<noteq> [] \<and>
         marathonJson noCommandDefinition \<noteq> [] \<and> packageJson noCommandDefinition \<noteq> []))"
  by (simp add: IsValid_def noCommandDefinition_def)

subsection \<open>Storage keys of a package\<close>

text \<open>
  C10: the container letter, and with it the package key and every package-version key,
  is computed exactly for the packages with a non-empty name; on the empty name each of
  the three panics with an index out of range.
\<close>

theorem ContainerId_partial:
  "(ContainerId p = Inl IndexOutOfRange) = (Name p = []) \<and>
   (PackageKey p = Inl IndexOutOfRange) = (Name p = []) \<and>
   (PackageVersionKey p index = Inl IndexOutOfRange) = (Name p = []) \<and>
   (\<exists>cid. ContainerId p = Inr cid) = (Name p \<noteq> []) \<and>
   (\<exists>key. PackageKey p = Inr key) = (Name p \<noteq> []) \<and>
   (\<exists>key. PackageVersionKey p index = Inr key) = (Name p \<noteq> [])"
  by (simp add: ContainerId_def PackageKey_def PackageVersionKey_def split: list.splits)

theorem ContainerId_partial_witness:
  "ContainerId ((ToPackage zkEntry)\<lparr>Name := []\<rparr>) = Inl IndexOutOfRange \<and>
   (\<exists>key. PackageVersionKey (ToPackage zkEntry) ''5'' = Inr key)"
  using ContainerId_partial [of "(ToPackage zkEntry)\<lparr>Name := []\<rparr>" "''5''"]
        ContainerId_partial [of "ToPackage zkEntry" "''5''"]
  by (simp add: ToPackage_def zkEntry_def)

subsection \<open>Support probing\<close>

text \<open>
  C1 at a concrete store: the options document of \<open>zk\<close> 1.0 is present in the first
  override layer and absent from the second. After \<open>setSupportedVersions\<close> the version
  is not supported, and neither is the package: the last layer probed decides.
\<close>

theorem setSupportedVersions_last_layer_decides:
  "Layers_client twoLayerStore =
     Inr [\<lparr>repo_Name = ''first'', repo_Index = 1\<rparr>, \<lparr>repo_Name = ''second'', repo_Index = 2\<rparr>] \<and>
   Get twoLayerStore ''mantl-install/repository/1/repo/packages/Z/zk/5/mantl.json'' =
     Inr (Some ''{}'') \<and>
   setSupportedVersions \<lparr>kv = twoLayerStore\<rparr> (ToPackage zkEntry) =
     Inr \<lparr>Name = ''zk'', Description = ''ZooKeeper'', Framework = False,
          CurrentVersion = ''1.0'', Supported = False, Tags = [],
          Versions = [(''1.0'', \<lparr>pv_Version = ''1.0'', pv_Index = ''5'', pv_Supported = False\<rparr>)]\<rparr>"
  by code_simp

subsection \<open>A name that matches no package\<close>

text \<open>
  C4 at a concrete store: the catalog holds \<open>zk\<close> only. For the name \<open>kafka\<close>
  \<open>getPackageByName\<close> returns no package and no error, and \<open>GetPackageDefinition\<close>
  panics on the \<open>nil\<close> package instead of returning an error.
\<close>

theorem GetPackageDefinition_unknown_name_panics:
  "getPackageByName zkUnmarshal \<lparr>kv = twoLayerStore\<rparr> ''kafka'' = Inr (Inr None) \<and>
   GetPackageDefinition zkUnmarshal \<lparr>kv = twoLayerStore\<rparr> ''kafka'' ''1.0'' = Inl NilDereference"
  by code_simp

subsection \<open>Merging configuration maps\<close>

text \<open>
  C2: the merged map, key by key. A key that \<open>override\<close> does not have keeps the value
  it has in \<open>base\<close>. For a key of \<open>override\<close>: when \<open>base\<close> has the key and both
  values are maps, the result is the merge of the two maps; in every other case it is the
  value of \<open>override\<close>. The keys of a Go map are distinct.
\<close>

theorem mergeConfig_lookup:
  "distinct (map fst override) \<Longrightarrow>
   map_of (mergeConfig base override) k =
     (case map_of override k of
        None \<Rightarrow> map_of base k
      | Some v \<Rightarrow>
          (case (map_of base k, v) of
             (Some (JObj baseVal), JObj overrideVal) \<Rightarrow>
               Some (JObj (mergeConfig baseVal overrideVal))
           | _ \<Rightarrow> Some v))"
proof (induction override arbitrary: base)
  case Nil
  then show ?case by simp
next
  case (Cons e rest)
  obtain k' v' where e: "e = (k', v')" by (cases e)
  from Cons.prems e have fresh: "map_of rest k' = None" and d: "distinct (map fst rest)"
    by (auto simp: map_of_eq_None_iff)
  define x where "x =
    (case (map_of base k', v') of
       (Some (JObj configVal), JObj overrideVal) \<Rightarrow> JObj (mergeConfig configVal overrideVal)
     | _ \<Rightarrow> v')"
  have step: "mergeConfig base (e # rest) = mergeConfig (AList.update k' x base) rest"
    by (simp add: e x_def split: option.splits json.splits)
  note IH = Cons.IH [OF d, of "AList.update k' x base"]
  show ?case
  proof (cases "k = k'")
    case True
    then show ?thesis
      unfolding step IH using fresh
      by (simp add: e update_conv' x_def split: option.splits json.splits)
  next
    case False
    then show ?thesis
      unfolding step IH by (simp add: e update_conv' cong: option.case_cong)
  qed
qed

theorem mergeConfig_lookup_witness:
  "distinct (map fst [(''a'', JObj [(''c'', JNum 9)]), (''d'', JNum 4)]) \<and>
   map_of (mergeConfig [(''a'', JObj [(''b'', JNum 1), (''c'', JNum 2)]), (''e'', JNum 5)]
             [(''a'', JObj [(''c'', JNum 9)]), (''d'', JNum 4)]) ''a'' =
     Some (JObj [(''b'', JNum 1), (''c'', JNum 9)])"
  using mergeConfig_lookup
    [of "[(''a'', JObj [(''c'', JNum 9)]), (''d'', JNum 4)]"
        "[(''a'', JObj [(''b'', JNum 1), (''c'', JNum 2)]), (''e'', JNum 5)]" "''a''"]
  by simp

lemma distinct_mergeConfig:
  "distinct (map fst base) \<Longrightarrow> distinct (map fst (mergeConfig base override))"
  by (induction base override rule: mergeConfig.induct)
     (auto simp: distinct_update split: option.splits json.splits)

subsection \<open>Defaults of a schema\<close>

lemma map_of_defaultConfigLoop:
  "distinct (map fst props) \<Longrightarrow>
   map_of (defaultConfigLoop props defaults) nm =
     (case map_of props nm of
        None \<Rightarrow> map_of defaults nm
      | Some child \<Rightarrow>
          if g_Default child \<noteq> JNull then Some (g_Default child)
          else if g_Type child = ''object'' then Some (JObj (defaultConfig child))
          else map_of defaults nm)"
proof (induction props arbitrary: defaults nm)
  case Nil
  then show ?case by simp
next
  case (Cons e rest)
  obtain n' g' where e: "e = (n', g')" by (cases e)
  from Cons.prems e have fresh: "map_of rest n' = None" and d: "distinct (map fst rest)"
    by (auto simp: map_of_eq_None_iff)
  note IH = Cons.IH [OF d]
  show ?case
  proof (cases "nm = n'")
    case True
    then show ?thesis
      using fresh by (simp add: e IH update_conv')
  next
    case False
    then show ?thesis
      by (simp add: e IH update_conv' split: option.splits)
  qed
qed

text \<open>
  C8: the defaults of a schema node, child by child. A child with a default (a value
  other than \<open>nil\<close>) gives that value unchanged; a child without one gives the defaults
  of its own properties when its type is \<open>object\<close>, and no key otherwise. A name that
  is not a property gives no key.
\<close>

theorem defaultConfig_lookup:
  "distinct (map fst (g_Properties g)) \<Longrightarrow>
   map_of (defaultConfig g) nm =
     (case map_of (g_Properties g) nm of
        None \<Rightarrow> None
      | Some child \<Rightarrow>
          if g_Default child \<noteq> JNull then Some (g_Default child)
          else if g_Type child = ''object'' then Some (JObj (defaultConfig child))
          else None)"
  by (cases g) (simp add: map_of_defaultConfigLoop split: option.splits)

theorem defaultConfig_lookup_witness:
  "distinct (map fst (g_Properties exampleSchema)) \<and>
   map_of (defaultConfig exampleSchema) ''instances'' = Some (JNum 3) \<and>
   map_of (defaultConfig exampleSchema) ''zookeeper'' = Some (JObj [(''port'', JStr ''2181'')]) \<and>
   map_of (defaultConfig exampleSchema) ''label'' = None \<and>
   map_of (defaultConfig exampleSchema) ''extra'' = Some (JObj [])"
  using defaultConfig_lookup [of exampleSchema "''instances''"]
        defaultConfig_lookup [of exampleSchema "''zookeeper''"]
        defaultConfig_lookup [of exampleSchema "''label''"]
        defaultConfig_lookup [of exampleSchema "''extra''"]
  by (simp add: exampleSchema_def)

subsection \<open>Sorting by most recent\<close>

lemma set_insertSorted: "set (insertSorted x ys) = insert x (set ys)"
  by (induction ys) auto

lemma ascending_insertSorted:
  "sorted_wrt (\<lambda>a b. pv_Index a \<le> pv_Index b) ys \<Longrightarrow>
   sorted_wrt (\<lambda>a b. pv_Index a \<le> pv_Index b) (insertSorted x ys)"
  by (induction ys) (auto simp: set_insertSorted Less_def)

lemma set_foldl_insert:
  "set (foldl (\<lambda>sorted x. rev (insertSorted x (rev sorted))) acc p) = set acc \<union> set p"
  by (induction p arbitrary: acc) (auto simp: set_insertSorted)

lemma descending_foldl_insert:
  "sorted_wrt (\<lambda>a b. pv_Index b \<le> pv_Index a) acc \<Longrightarrow>
   sorted_wrt (\<lambda>a b. pv_Index b \<le> pv_Index a)
     (foldl (\<lambda>sorted x. rev (insertSorted x (rev sorted))) acc p)"
proof (induction p arbitrary: acc)
  case Nil
  then show ?case by simp
next
  case (Cons x p)
  from Cons.prems have "sorted_wrt (\<lambda>a b. pv_Index a \<le> pv_Index b) (rev acc)"
    by (simp add: sorted_wrt_rev)
  then have "sorted_wrt (\<lambda>a b. pv_Index a \<le> pv_Index b) (insertSorted x (rev acc))"
    by (rule ascending_insertSorted)
  then have "sorted_wrt (\<lambda>a b. pv_Index b \<le> pv_Index a) (rev (insertSorted x (rev acc)))"
    by (simp add: sorted_wrt_rev)
  then show ?case
    by (simp add: Cons.IH)
qed

lemma set_sort_Sort: "set (sort_Sort p) = set p"
  by (simp add: sort_Sort_def set_foldl_insert)

lemma descending_sort_Sort: "sorted_wrt (\<lambda>a b. pv_Index b \<le> pv_Index a) (sort_Sort p)"
  by (simp add: sort_Sort_def descending_foldl_insert)

lemma sort_Sort_Nil_iff: "sort_Sort p = [] \<longleftrightarrow> p = []"
  using set_sort_Sort [of p] by (metis set_empty)

text \<open>The first element after sorting is an element of the slice with the greatest index.\<close>

lemma sort_Sort_first:
  assumes "p \<noteq> []"
  obtains v vs where "sort_Sort p = v # vs" and "v \<in> set p"
    and "\<forall>w\<in>set p. pv_Index w \<le> pv_Index v"
proof -
  from assms obtain v vs where vs: "sort_Sort p = v # vs"
    by (cases "sort_Sort p") (auto simp: sort_Sort_Nil_iff)
  have "v \<in> set p" using set_sort_Sort [of p] vs by auto
  moreover have "\<forall>w\<in>set p. pv_Index w \<le> pv_Index v"
    using descending_sort_Sort [of p] set_sort_Sort [of p] vs by auto
  ultimately show thesis using vs that by blast
qed

subsection \<open>Choosing the version to install\<close>

lemma FindLatestPackageVersion_Nil:
  "Versions pkg = [] \<Longrightarrow> FindLatestPackageVersion pkg = None"
  by (simp add: FindLatestPackageVersion_def PackageVersions_def sort_Sort_def)

lemma FindLatestPackageVersion_greatest:
  assumes "Versions pkg \<noteq> []"
  shows "\<exists>v. FindLatestPackageVersion pkg = Some v \<and> v \<in> set (PackageVersions pkg) \<and>
             (\<forall>w\<in>set (PackageVersions pkg). pv_Index w \<le> pv_Index v)"
proof -
  from assms have "PackageVersions pkg \<noteq> []" by (simp add: PackageVersions_def)
  then obtain v vs where "sort_Sort (PackageVersions pkg) = v # vs"
    and "v \<in> set (PackageVersions pkg)"
    and "\<forall>w\<in>set (PackageVersions pkg). pv_Index w \<le> pv_Index v"
    by (rule sort_Sort_first)
  then show ?thesis by (simp add: FindLatestPackageVersion_def)
qed

lemma FindPackageVersion_Some:
  "FindPackageVersion pkg ver = Some v \<Longrightarrow>
   v \<in> set (PackageVersions pkg) \<and> EqualFold (pv_Version v) (TrimSpace ver)"
  by (auto simp: FindPackageVersion_def find_Some_iff)

lemma FindPackageVersion_None:
  "FindPackageVersion pkg ver = None \<longleftrightarrow>
   (\<forall>v\<in>set (PackageVersions pkg). \<not> EqualFold (pv_Version v) (TrimSpace ver))"
  by (auto simp: FindPackageVersion_def find_None_iff)

text \<open>
  C5, as the code has it. A request, empty or not, whose trimmed text equals the version
  string of some version up to case resolves to such a version, supported or not. A
  request that matches no version resolves, when the package has versions, to a version
  whose release index is greatest among all versions. A package with no versions
  resolves to nothing, and \<open>GetPackageDefinition\<close> then returns the error
  \<open>Could not find installable version for\<close> the name.
\<close>

theorem findVersion_policy:
  "((\<exists>v\<in>set (PackageVersions pkg). EqualFold (pv_Version v) (TrimSpace ver)) \<longrightarrow>
      (\<exists>v. findVersion pkg ver = Some v \<and> v \<in> set (PackageVersions pkg) \<and>
           EqualFold (pv_Version v) (TrimSpace ver))) \<and>
   ((\<forall>v\<in>set (PackageVersions pkg). \<not> EqualFold (pv_Version v) (TrimSpace ver)) \<and>
      Versions pkg \<noteq> [] \<longrightarrow>
      (\<exists>v. findVersion pkg ver = Some v \<and> v \<in> set (PackageVersions pkg) \<and>
           (\<forall>w\<in>set (PackageVersions pkg). pv_Index w \<le> pv_Index v))) \<and>
   (Versions pkg = [] \<longrightarrow>
      findVersion pkg ver = None \<and>
      (getPackageByName J install nm = Inr (Inr (Some pkg)) \<longrightarrow>
         GetPackageDefinition J install nm ver =
           Inr (Inl (errorString (''Could not find installable version for '' @ nm)))))"
proof (intro conjI impI)
  assume "\<exists>v\<in>set (PackageVersions pkg). EqualFold (pv_Version v) (TrimSpace ver)"
  then obtain v where "FindPackageVersion pkg ver = Some v"
    using FindPackageVersion_None [of pkg ver] by (cases "FindPackageVersion pkg ver") auto
  then show "\<exists>v. findVersion pkg ver = Some v \<and> v \<in> set (PackageVersions pkg) \<and>
           EqualFold (pv_Version v) (TrimSpace ver)"
    using FindPackageVersion_Some [of pkg ver v] by (simp add: findVersion_def)
next
  assume "(\<forall>v\<in>set (PackageVersions pkg). \<not> EqualFold (pv_Version v) (TrimSpace ver)) \<and>
      Versions pkg \<noteq> []"
  then have "FindPackageVersion pkg ver = None" and "Versions pkg \<noteq> []"
    by (simp_all add: FindPackageVersion_None)
  then show "\<exists>v. findVersion pkg ver = Some v \<and> v \<in> set (PackageVersions pkg) \<and>
           (\<forall>w\<in>set (PackageVersions pkg). pv_Index w \<le> pv_Index v)"
    using FindLatestPackageVersion_greatest [of pkg] by (simp add: findVersion_def)
next
  assume "Versions pkg = []"
  then show "findVersion pkg ver = None"
    by (simp add: findVersion_def FindPackageVersion_def PackageVersions_def
        FindLatestPackageVersion_Nil)
next
  assume "Versions pkg = []" and "getPackageByName J install nm = Inr (Inr (Some pkg))"
  then show "GetPackageDefinition J install nm ver =
           Inr (Inl (errorString (''Could not find installable version for '' @ nm)))"
    by (simp add: GetPackageDefinition_def findVersion_def FindPackageVersion_def
        PackageVersions_def FindLatestPackageVersion_Nil)
qed

text \<open>
  The three cases at \<open>threeVersions\<close>: the request \<open>0.9\<close> with blanks around it
  matches the unsupported version 0.9; the request \<open>2.0\<close> matches nothing and gives
  1.2, of release index 9; with the versions removed nothing is found.
\<close>

theorem findVersion_policy_witness:
  "(\<exists>v\<in>set (PackageVersions threeVersions). EqualFold (pv_Version v) (TrimSpace '' 0.9 '')) \<and>
   findVersion threeVersions '' 0.9 '' =
     Some \<lparr>pv_Version = ''0.9'', pv_Index = ''7'', pv_Supported = False\<rparr> \<and>
   \<not> (\<exists>v\<in>set (PackageVersions threeVersions). EqualFold (pv_Version v) (TrimSpace ''2.0'')) \<and>
   findVersion threeVersions ''2.0'' =
     Some \<lparr>pv_Version = ''1.2'', pv_Index = ''9'', pv_Supported = True\<rparr> \<and>
   findVersion (threeVersions\<lparr>Versions := []\<rparr>) ''1.0'' = None"
proof -
  have a: "findVersion threeVersions '' 0.9 '' =
     Some \<lparr>pv_Version = ''0.9'', pv_Index = ''7'', pv_Supported = False\<rparr>"
    by code_simp
  have b: "findVersion threeVersions ''2.0'' =
     Some \<lparr>pv_Version = ''1.2'', pv_Index = ''9'', pv_Supported = True\<rparr>"
    by code_simp
  have c: "FindPackageVersion threeVersions '' 0.9 '' \<noteq> None"
    by code_simp
  have d: "FindPackageVersion threeVersions ''2.0'' = None"
    by code_simp
  from c d show ?thesis
    using findVersion_policy [of threeVersions "'' 0.9 ''"]
          findVersion_policy [of threeVersions "''2.0''"]
          findVersion_policy [of "threeVersions\<lparr>Versions := []\<rparr>" "''1.0''"]
    by (simp add: a b FindPackageVersion_None)
qed

text \<open>
  C5 as stated fails for the empty request when the empty string is a version key: the
  request matches that version, of release index 1, although release index 9 is greater.
\<close>

theorem findVersion_empty_request_counterexample:
  "\<not> (\<exists>v. findVersion emptyKeyPackage [] = Some v \<and>
           (\<forall>w\<in>set (PackageVersions emptyKeyPackage). pv_Index w \<le> pv_Index v))"
proof -
  have "findVersion emptyKeyPackage [] =
      Some \<lparr>pv_Version = [], pv_Index = ''1'', pv_Supported = False\<rparr>"
    by code_simp
  moreover have "\<lparr>pv_Version = ''2.0'', pv_Index = ''9'', pv_Supported = False\<rparr>
      \<in> set (PackageVersions emptyKeyPackage)"
    by (simp add: PackageVersions_def emptyKeyPackage_def)
  moreover have "\<not> (''9'' :: string) \<le> ''1''"
    by simp
  ultimately show ?thesis
    by force
qed

subsection \<open>The current version\<close>

lemma SupportedVersions_iff:
  "v \<in> set (SupportedVersions pkg) \<longleftrightarrow> v \<in> set (PackageVersions pkg) \<and> pv_Supported v"
  by (auto simp: SupportedVersions_def)

lemma HasSupportedVersion_iff:
  "HasSupportedVersion pkg \<longleftrightarrow> (\<exists>v\<in>set (PackageVersions pkg). pv_Supported v)"
  by (auto simp: HasSupportedVersion_def SupportedVersions_def filter_empty_conv)

lemma setCurrentVersion_highest:
  assumes "Supported pkg" and "HasSupportedVersion pkg"
    and "\<not> (\<exists>cv. map_of (Versions pkg) (CurrentVersion pkg) = Some cv \<and> pv_Supported cv)"
  shows "\<exists>v\<in>set (PackageVersions pkg). pv_Supported v \<and>
           (\<forall>w\<in>set (PackageVersions pkg). pv_Supported w \<longrightarrow> pv_Index w \<le> pv_Index v) \<and>
           setCurrentVersion pkg = pkg\<lparr>CurrentVersion := pv_Version v\<rparr>"
proof -
  from assms(2) have "SupportedVersions pkg \<noteq> []"
    by (simp add: HasSupportedVersion_def)
  then obtain v vs where s: "sort_Sort (SupportedVersions pkg) = v # vs"
    and v: "v \<in> set (SupportedVersions pkg)"
    and top: "\<forall>w\<in>set (SupportedVersions pkg). pv_Index w \<le> pv_Index v"
    by (rule sort_Sort_first)
  from v have sv: "pv_Supported v" and mem: "v \<in> set (PackageVersions pkg)"
    by (simp_all add: SupportedVersions_iff)
  from assms(3) have nc: "(case map_of (Versions pkg) (CurrentVersion pkg) of
      Some cv \<Rightarrow> pv_Supported cv | None \<Rightarrow> False) = False"
    by (simp split: option.splits)
  have "setCurrentVersion pkg = pkg\<lparr>CurrentVersion := pv_Version v\<rparr>"
    using assms(1,2) by (simp add: setCurrentVersion_def nc s sv)
  with sv mem top show ?thesis
    by (auto simp: SupportedVersions_iff)
qed

text \<open>
  C6, as the code has it. The package is left as it is when it is not supported (or has
  no supported version), and when its declared current version is the key of a supported
  version. Otherwise the current version becomes the version string of a supported
  version whose release index is greatest among the supported versions.
\<close>

theorem setCurrentVersion_policy:
  "(\<not> Supported pkg \<or> \<not> HasSupportedVersion pkg \<longrightarrow> setCurrentVersion pkg = pkg) \<and>
   ((\<exists>cv. map_of (Versions pkg) (CurrentVersion pkg) = Some cv \<and> pv_Supported cv) \<longrightarrow>
      setCurrentVersion pkg = pkg) \<and>
   (Supported pkg \<and> HasSupportedVersion pkg \<and>
    \<not> (\<exists>cv. map_of (Versions pkg) (CurrentVersion pkg) = Some cv \<and> pv_Supported cv) \<longrightarrow>
      (\<exists>v\<in>set (PackageVersions pkg). pv_Supported v \<and>
         (\<forall>w\<in>set (PackageVersions pkg). pv_Supported w \<longrightarrow> pv_Index w \<le> pv_Index v) \<and>
         setCurrentVersion pkg = pkg\<lparr>CurrentVersion := pv_Version v\<rparr>))"
proof (intro conjI impI)
  assume "\<not> Supported pkg \<or> \<not> HasSupportedVersion pkg"
  then show "setCurrentVersion pkg = pkg"
    by (auto simp: setCurrentVersion_def)
next
  assume "\<exists>cv. map_of (Versions pkg) (CurrentVersion pkg) = Some cv \<and> pv_Supported cv"
  then show "setCurrentVersion pkg = pkg"
    by (auto simp: setCurrentVersion_def)
next
  assume "Supported pkg \<and> HasSupportedVersion pkg \<and>
    \<not> (\<exists>cv. map_of (Versions pkg) (CurrentVersion pkg) = Some cv \<and> pv_Supported cv)"
  then show "\<exists>v\<in>set (PackageVersions pkg). pv_Supported v \<and>
         (\<forall>w\<in>set (PackageVersions pkg). pv_Supported w \<longrightarrow> pv_Index w \<le> pv_Index v) \<and>
         setCurrentVersion pkg = pkg\<lparr>CurrentVersion := pv_Version v\<rparr>"
    using setCurrentVersion_highest [of pkg] by blast
qed

text \<open>
  At \<open>threeVersions\<close>: the declared current version 0.9 is not supported, the supported
  versions are 1.0 (index 5) and 1.2 (index 9), and the current version becomes 1.2.
\<close>

theorem setCurrentVersion_policy_witness:
  "setCurrentVersion (threeVersions\<lparr>Supported := False\<rparr>) = threeVersions\<lparr>Supported := False\<rparr> \<and>
   setCurrentVersion (threeVersions\<lparr>CurrentVersion := ''1.0''\<rparr>) =
     threeVersions\<lparr>CurrentVersion := ''1.0''\<rparr> \<and>
   Supported threeVersions \<and> HasSupportedVersion threeVersions \<and>
   map_of (Versions threeVersions) (CurrentVersion threeVersions) =
     Some \<lparr>pv_Version = ''0.9'', pv_Index = ''7'', pv_Supported = False\<rparr> \<and>
   setCurrentVersion threeVersions = threeVersions\<lparr>CurrentVersion := ''1.2''\<rparr>"
proof -
  have a: "Supported threeVersions \<and> HasSupportedVersion threeVersions \<and>
     map_of (Versions threeVersions) (CurrentVersion threeVersions) =
       Some \<lparr>pv_Version = ''0.9'', pv_Index = ''7'', pv_Supported = False\<rparr>"
    by code_simp
  have b: "setCurrentVersion threeVersions = threeVersions\<lparr>CurrentVersion := ''1.2''\<rparr>"
    by code_simp
  have c: "map_of (Versions (threeVersions\<lparr>CurrentVersion := ''1.0''\<rparr>))
       (CurrentVersion (threeVersions\<lparr>CurrentVersion := ''1.0''\<rparr>)) =
     Some \<lparr>pv_Version = ''1.0'', pv_Index = ''5'', pv_Supported = True\<rparr>"
    by code_simp
  from a b c show ?thesis
    using setCurrentVersion_policy [of "threeVersions\<lparr>Supported := False\<rparr>"]
          setCurrentVersion_policy [of "threeVersions\<lparr>CurrentVersion := ''1.0''\<rparr>"]
          setCurrentVersion_policy [of threeVersions]
    by simp
qed

text \<open>
  C6 as stated says that ties are broken deterministically. They are not: the two
  supported versions of \<open>tiePackage\<close> share the release index, and the same map visited
  in the other order gives the other version.
\<close>

theorem setCurrentVersion_tie_counterexample:
  "distinct (map fst (Versions tiePackage)) \<and>
   set (rev (Versions tiePackage)) = set (Versions tiePackage) \<and>
   CurrentVersion (setCurrentVersion tiePackage) = ''1.0'' \<and>
   CurrentVersion (setCurrentVersion (tiePackage\<lparr>Versions := rev (Versions tiePackage)\<rparr>)) = ''1.1'' \<and>
   CurrentVersion (setCurrentVersion tiePackage) \<noteq>
     CurrentVersion (setCurrentVersion (tiePackage\<lparr>Versions := rev (Versions tiePackage)\<rparr>))"
proof -
  have "distinct (map fst (Versions tiePackage))" by code_simp
  moreover have "CurrentVersion (setCurrentVersion tiePackage) = ''1.0''" by code_simp
  moreover have "CurrentVersion (setCurrentVersion (tiePackage\<lparr>Versions := rev (Versions tiePackage)\<rparr>)) = ''1.1''"
    by code_simp
  ultimately show ?thesis by simp
qed

subsection \<open>The package invariant after the catalog build\<close>

lemma probeLayers_fields:
  "probeLayers install pkg layers pv = Inr pv' \<Longrightarrow>
   pv_Version pv' = pv_Version pv \<and> pv_Index pv' = pv_Index pv"
  by (induction layers arbitrary: pv) (auto split: sum.splits)

lemma probeVersions_keys:
  "probeVersions install pkg layers vs = Inr vs' \<Longrightarrow>
   map fst vs' = map fst vs \<and> (keyed vs \<longrightarrow> keyed vs')"
proof (induction vs arbitrary: vs')
  case Nil
  then show ?case by simp
next
  case (Cons e vs)
  obtain k v where e: "e = (k, v)" by (cases e)
  from Cons.prems e obtain v' ws where
    v': "probeLayers install pkg layers v = Inr v'" and
    ws: "probeVersions install pkg layers vs = Inr ws" and
    vs': "vs' = (k, v') # ws"
    by (auto split: sum.splits)
  from Cons.IH [OF ws] probeLayers_fields [OF v'] show ?case
    by (simp add: e vs' keyed_def)
qed

lemma keyed_ToPackage: "keyed (Versions (ToPackage entry))"
  by (simp add: ToPackage_def keyed_def list_all_iff split_beta)

lemma keys_ToPackage: "map fst (Versions (ToPackage entry)) = map fst (entry_Versions entry)"
  by (simp add: ToPackage_def split_beta)

lemma unsupported_ToPackage: "\<not> HasSupportedVersion (ToPackage entry) \<and> \<not> Supported (ToPackage entry)"
  by (simp add: ToPackage_def HasSupportedVersion_def SupportedVersions_def PackageVersions_def
      filter_empty_conv split_beta)

lemma setSupportedVersions_result:
  assumes "setSupportedVersions install (ToPackage entry) = Inr pkg"
  shows "map fst (Versions pkg) = map fst (entry_Versions entry) \<and> keyed (Versions pkg) \<and>
         Supported pkg = HasSupportedVersion pkg"
proof (cases "Install_LayerRepositories install")
  case (Inl err)
  with assms have "pkg = ToPackage entry"
    by (simp add: setSupportedVersions_def)
  then show ?thesis
    using keyed_ToPackage [of entry] keys_ToPackage [of entry] unsupported_ToPackage [of entry]
    by simp
next
  case (Inr layers)
  with assms obtain vs where
    vs: "probeVersions install (ToPackage entry) layers (Versions (ToPackage entry)) = Inr vs"
    and pkg: "pkg = (ToPackage entry)\<lparr>Versions := vs,
        Supported := HasSupportedVersion ((ToPackage entry)\<lparr>Versions := vs\<rparr>)\<rparr>"
    by (auto simp: setSupportedVersions_def Let_def split: sum.splits)
  from probeVersions_keys [OF vs] keyed_ToPackage [of entry] keys_ToPackage [of entry]
  show ?thesis
    by (simp add: pkg HasSupportedVersion_def SupportedVersions_def PackageVersions_def)
qed

lemma map_of_keyed:
  assumes "distinct (map fst vs)" and "keyed vs" and "v \<in> set (map snd vs)"
  shows "map_of vs (pv_Version v) = Some v"
proof -
  from assms(3) obtain k where "(k, v) \<in> set vs" by auto
  moreover with assms(2) have "pv_Version v = k"
    by (auto simp: keyed_def list_all_iff)
  ultimately show ?thesis using assms(1) by simp
qed

lemma setCurrentVersion_invariant:
  assumes d: "distinct (map fst (Versions pkg))" and k: "keyed (Versions pkg)"
    and s: "Supported pkg = HasSupportedVersion pkg"
  shows "catalogInvariant (setCurrentVersion pkg)"
proof -
  consider (unsupported) "\<not> Supported pkg"
    | (kept) "Supported pkg"
        "\<exists>cv. map_of (Versions pkg) (CurrentVersion pkg) = Some cv \<and> pv_Supported cv"
    | (moved) "Supported pkg"
        "\<not> (\<exists>cv. map_of (Versions pkg) (CurrentVersion pkg) = Some cv \<and> pv_Supported cv)"
    by blast
  then show ?thesis
  proof cases
    case unsupported
    then have "setCurrentVersion pkg = pkg" by (simp add: setCurrentVersion_def)
    with unsupported s show ?thesis
      by (simp add: catalogInvariant_def HasSupportedVersion_iff)
  next
    case kept
    then have "setCurrentVersion pkg = pkg" by (auto simp: setCurrentVersion_def)
    with kept s show ?thesis
      by (simp add: catalogInvariant_def HasSupportedVersion_iff)
  next
    case moved
    with s obtain v where v: "v \<in> set (PackageVersions pkg)" "pv_Supported v"
      and r: "setCurrentVersion pkg = pkg\<lparr>CurrentVersion := pv_Version v\<rparr>"
      using setCurrentVersion_highest [of pkg] by blast
    from v(1) have "map_of (Versions pkg) (pv_Version v) = Some v"
      using map_of_keyed [OF d k] by (simp add: PackageVersions_def)
    with v moved s show ?thesis
      by (simp add: r catalogInvariant_def HasSupportedVersion_iff PackageVersions_def)
  qed
qed

lemma buildPackages_invariant:
  assumes "\<forall>e\<in>set entries. distinct (map fst (entry_Versions e))"
    and "buildPackages install entries = Inr packages"
  shows "\<forall>p\<in>set packages. catalogInvariant p"
  using assms
proof (induction entries arbitrary: packages)
  case Nil
  then show ?case by simp
next
  case (Cons entry rest)
  from Cons.prems(2) obtain pkg pkgs where
    pkg: "setSupportedVersions install (ToPackage entry) = Inr pkg" and
    pkgs: "buildPackages install rest = Inr pkgs" and
    packages: "packages = setCurrentVersion pkg # pkgs"
    by (auto split: sum.splits)
  from Cons.prems(1) have "distinct (map fst (entry_Versions entry))" by simp
  with setSupportedVersions_result [OF pkg]
  have "catalogInvariant (setCurrentVersion pkg)"
    by (intro setCurrentVersion_invariant) simp_all
  moreover from Cons.prems(1) Cons.IH [OF _ pkgs]
  have "\<forall>p\<in>set pkgs. catalogInvariant p" by simp
  ultimately show ?case by (simp add: packages)
qed

text \<open>
  C9: every package that the catalog build returns satisfies the package invariant. The
  version maps of the index entries are Go maps, so their keys are distinct.
\<close>

theorem getPackages_invariant:
  assumes "\<forall>doc entries. intoIndex J doc = Inr entries \<longrightarrow>
             (\<forall>e\<in>set entries. distinct (map fst (entry_Versions e)))"
    and "getPackages J install = Inr (Inr packages)"
    and "p \<in> set packages"
  shows "catalogInvariant p"
proof -
  from assms(2) obtain entries where
    entries: "packageIndexEntries J install = Inr entries" and
    build: "buildPackages install entries = Inr packages"
    by (auto simp: getPackages_def split: sum.splits)
  have "\<forall>e\<in>set entries. distinct (map fst (entry_Versions e))"
  proof (cases "entries = []")
    case True
    then show ?thesis by simp
  next
    case False
    with entries obtain doc where "intoIndex J doc = Inr entries"
      by (auto simp: packageIndexEntries_def split: sum.splits option.splits)
    with assms(1) show ?thesis by blast
  qed
  from buildPackages_invariant [OF this build] assms(3) show ?thesis by blast
qed

theorem getPackages_invariant_witness:
  "getPackages layeredUnmarshal \<lparr>kv = layeredStore\<rparr> = Inr (Inr [layeredPackage]) \<and>
   layeredPackage \<in> set [layeredPackage] \<and>
   Supported layeredPackage \<and>
   catalogInvariant layeredPackage"
proof -
  have wf: "\<forall>doc entries. intoIndex layeredUnmarshal doc = Inr entries \<longrightarrow>
      (\<forall>e\<in>set entries. distinct (map fst (entry_Versions e)))"
    by (auto simp: layeredUnmarshal_def twoVersionsEntry_def)
  have run: "getPackages layeredUnmarshal \<lparr>kv = layeredStore\<rparr> = Inr (Inr [layeredPackage])"
    by code_simp
  have mem: "layeredPackage \<in> set [layeredPackage]"
    by simp
  have "Supported layeredPackage"
    by (simp add: layeredPackage_def)
  with run mem getPackages_invariant [OF wf run mem] show ?thesis
    by simp
qed

text \<open>The build returns packages when no entry has the empty name.\<close>

lemma PackageVersionKey_named:
  "Name pkg \<noteq> [] \<Longrightarrow> \<exists>vkey. PackageVersionKey pkg index = Inr vkey"
  by (cases "Name pkg") (simp_all add: PackageVersionKey_def PackageKey_def ContainerId_def)

lemma probeLayers_total:
  "Name pkg \<noteq> [] \<Longrightarrow> \<exists>pv'. probeLayers install pkg layers pv = Inr pv'"
proof (induction layers arbitrary: pv)
  case Nil
  then show ?case by simp
next
  case (Cons layer layers)
  from Cons.prems obtain vkey where "PackageVersionKey pkg (pv_Index pv) = Inr vkey"
    using PackageVersionKey_named by blast
  with Cons.IH [OF Cons.prems] show ?case
    by (simp add: Let_def)
qed

lemma probeVersions_total:
  "Name pkg \<noteq> [] \<Longrightarrow> \<exists>vs'. probeVersions install pkg layers vs = Inr vs'"
proof (induction vs)
  case Nil
  then show ?case by simp
next
  case (Cons e vs)
  obtain k v where e: "e = (k, v)" by (cases e)
  from probeLayers_total [OF Cons.prems, of install layers v] Cons.IH [OF Cons.prems]
  show ?case by (auto simp: e)
qed

lemma setSupportedVersions_total:
  assumes "Name pkg \<noteq> []"
  shows "\<exists>pkg'. setSupportedVersions install pkg = Inr pkg'"
proof (cases "Install_LayerRepositories install")
  case (Inl err)
  then show ?thesis by (simp add: setSupportedVersions_def)
next
  case (Inr layers)
  from probeVersions_total [OF assms, of install layers "Versions pkg"]
  obtain vs where "probeVersions install pkg layers (Versions pkg) = Inr vs" by blast
  with Inr show ?thesis by (simp add: setSupportedVersions_def Let_def)
qed

lemma buildPackages_total:
  "\<forall>e\<in>set entries. entry_Name e \<noteq> [] \<Longrightarrow>
   \<exists>packages. buildPackages install entries = Inr packages \<and> length packages = length entries"
proof (induction entries)
  case Nil
  then show ?case by simp
next
  case (Cons entry rest)
  then have "Name (ToPackage entry) \<noteq> []"
    by (simp add: ToPackage_def)
  from setSupportedVersions_total [OF this, of install] Cons show ?case
    by auto
qed

subsection \<open>Collecting the documents of a package version\<close>

lemma lastNonEmpty_none:
  "\<forall>x\<in>set xs. x = [] \<Longrightarrow> lastNonEmpty xs before = before"
  by (induction xs arbitrary: before) auto

lemma lastNonEmpty_some:
  assumes "sorted (map repo_Index repos)" and "\<exists>repo\<in>set repos. doc repo \<noteq> []"
  shows "\<exists>repo\<in>set repos. doc repo \<noteq> [] \<and> lastNonEmpty (map doc repos) before = doc repo \<and>
           (\<forall>r\<in>set repos. doc r \<noteq> [] \<longrightarrow> repo_Index r \<le> repo_Index repo)"
  using assms
proof (induction repos arbitrary: before)
  case Nil
  then show ?case by simp
next
  case (Cons r0 rest)
  from Cons.prems(1) have srt: "sorted (map repo_Index rest)"
    and low: "\<forall>r\<in>set rest. repo_Index r0 \<le> repo_Index r"
    by auto
  show ?case
  proof (cases "\<exists>repo\<in>set rest. doc repo \<noteq> []")
    case True
    from Cons.IH [OF srt True, of "if doc r0 \<noteq> [] then doc r0 else before"]
    obtain repo where "repo \<in> set rest" "doc repo \<noteq> []"
      "lastNonEmpty (map doc rest) (if doc r0 \<noteq> [] then doc r0 else before) = doc repo"
      "\<forall>r\<in>set rest. doc r \<noteq> [] \<longrightarrow> repo_Index r \<le> repo_Index repo"
      by blast
    with low show ?thesis
      by (intro bexI [of _ repo]) auto
  next
    case False
    with Cons.prems(2) have r0: "doc r0 \<noteq> []" by auto
    from False have "lastNonEmpty (map doc rest) (doc r0) = doc r0"
      by (intro lastNonEmpty_none) auto
    with r0 False show ?thesis
      by (intro bexI [of _ r0]) auto
  qed
qed

lemma lastWriterWins_lastNonEmpty:
  "sorted (map repo_Index repos) \<Longrightarrow>
   lastWriterWins doc repos before (lastNonEmpty (map doc repos) before)"
  unfolding lastWriterWins_def
  using lastNonEmpty_none [of "map doc repos" before] lastNonEmpty_some [of repos doc before]
  by (cases "\<forall>repo\<in>set repos. doc repo = []") auto

lemma collectFiles_fields:
  assumes "PackageVersionKey pkg (pv_Index pkgVersion) = Inr vkey"
  shows "\<exists>pkgDef. collectFiles install pkg pkgVersion repos d = Inr pkgDef \<and>
     commandJson pkgDef =
       lastNonEmpty (map (documentAt install pkg pkgVersion ''command.json'') repos) (commandJson d) \<and>
     configJson pkgDef =
       lastNonEmpty (map (documentAt install pkg pkgVersion ''config.json'') repos) (configJson d) \<and>
     marathonJson pkgDef =
       lastNonEmpty (map (documentAt install pkg pkgVersion ''marathon.json'') repos) (marathonJson d) \<and>
     packageJson pkgDef =
       lastNonEmpty (map (documentAt install pkg pkgVersion ''package.json'') repos) (packageJson d) \<and>
     optionsJson pkgDef =
       lastNonEmpty (map (documentAt install pkg pkgVersion ''mantl.json'') repos) (optionsJson d) \<and>
     name pkgDef = name d \<and> version pkgDef = version d \<and> release pkgDef = release d \<and>
     framework pkgDef = framework d \<and> frameworkName pkgDef = frameworkName d"
proof (induction repos arbitrary: d)
  case Nil
  then show ?case by simp
next
  case (Cons repo repos)
  define d' where "d' =
    d\<lparr>commandJson := (if documentAt install pkg pkgVersion ''command.json'' repo \<noteq> []
                       then documentAt install pkg pkgVersion ''command.json'' repo else commandJson d),
      configJson := (if documentAt install pkg pkgVersion ''config.json'' repo \<noteq> []
                       then documentAt install pkg pkgVersion ''config.json'' repo else configJson d),
      marathonJson := (if documentAt install pkg pkgVersion ''marathon.json'' repo \<noteq> []
                       then documentAt install pkg pkgVersion ''marathon.json'' repo else marathonJson d),
      packageJson := (if documentAt install pkg pkgVersion ''package.json'' repo \<noteq> []
                       then documentAt install pkg pkgVersion ''package.json'' repo else packageJson d),
      optionsJson := (if documentAt install pkg pkgVersion ''mantl.json'' repo \<noteq> []
                       then documentAt install pkg pkgVersion ''mantl.json'' repo else optionsJson d)\<rparr>"
  have step: "collectFiles install pkg pkgVersion (repo # repos) d =
      collectFiles install pkg pkgVersion repos d'"
    by (simp add: assms documentAt_def d'_def Let_def)
  from Cons.IH [of d'] show ?case
    unfolding step by (simp add: d'_def)
qed

lemma set_namedRepositories:
  "repo_Index ` set (namedRepositories client idxs) \<subseteq> set idxs"
  by (induction idxs) (auto split: sum.splits)

lemma sorted_namedRepositories:
  "sorted idxs \<Longrightarrow> sorted (map repo_Index (namedRepositories client idxs))"
proof (induction idxs)
  case Nil
  then show ?case by simp
next
  case (Cons idx idxs)
  then show ?case
    using set_namedRepositories [of client idxs] by (auto split: sum.splits)
qed

lemma sorted_Repositories:
  "Repositories client = Inr repositories \<Longrightarrow> sorted (map repo_Index repositories)"
  by (auto simp: Repositories_def indexes_def sorted_namedRepositories split: sum.splits)

lemma base_first:
  assumes "sorted (map repo_Index repositories)"
    and "\<forall>r\<in>set repositories. 0 \<le> repo_Index r" and "Base repositories \<noteq> None"
  shows "IsBase (hd repositories)"
proof -
  from assms(3) obtain b where b: "b \<in> set repositories" "repo_Index b = 0"
    by (auto simp: Base_def find_None_iff)
  then obtain r rs where rs: "repositories = r # rs"
    by (cases repositories) auto
  with assms(1) b have "repo_Index r \<le> 0" by auto
  moreover from assms(2) rs have "0 \<le> repo_Index r" by simp
  ultimately show ?thesis by (simp add: rs IsBase_def)
qed

text \<open>
  C7: the repositories read from the installer's store come in ascending index, with the
  base first when no index is negative. For a package with a name the loop over them returns a
  definition in which each of the five documents is last-writer-wins over that sequence:
  what was held before the loop (the empty document, in \<open>GetPackageDefinition\<close>) when no
  layer has the document, and otherwise the document, as it is, of the layer of greatest
  index that has it.
\<close>

theorem collectFiles_last_writer_wins:
  assumes "Repositories (kv install) = Inr repositories" and "Name pkg \<noteq> []"
  shows "sorted (map repo_Index repositories) \<and>
     ((\<forall>r\<in>set repositories. 0 \<le> repo_Index r) \<and> Base repositories \<noteq> None \<longrightarrow>
        IsBase (hd repositories)) \<and>
     (\<exists>pkgDef. collectFiles install pkg pkgVersion repositories d = Inr pkgDef \<and>
        lastWriterWins (documentAt install pkg pkgVersion ''command.json'') repositories
          (commandJson d) (commandJson pkgDef) \<and>
        lastWriterWins (documentAt install pkg pkgVersion ''config.json'') repositories
          (configJson d) (configJson pkgDef) \<and>
        lastWriterWins (documentAt install pkg pkgVersion ''marathon.json'') repositories
          (marathonJson d) (marathonJson pkgDef) \<and>
        lastWriterWins (documentAt install pkg pkgVersion ''package.json'') repositories
          (packageJson d) (packageJson pkgDef) \<and>
        lastWriterWins (documentAt install pkg pkgVersion ''mantl.json'') repositories
          (optionsJson d) (optionsJson pkgDef))"
proof -
  from assms(1) have srt: "sorted (map repo_Index repositories)"
    by (rule sorted_Repositories)
  from assms(2) obtain vkey where "PackageVersionKey pkg (pv_Index pkgVersion) = Inr vkey"
    using PackageVersionKey_named by blast
  from collectFiles_fields [OF this, of install repositories d]
  obtain pkgDef where "collectFiles install pkg pkgVersion repositories d = Inr pkgDef"
    and "commandJson pkgDef =
       lastNonEmpty (map (documentAt install pkg pkgVersion ''command.json'') repositories) (commandJson d)"
    and "configJson pkgDef =
       lastNonEmpty (map (documentAt install pkg pkgVersion ''config.json'') repositories) (configJson d)"
    and "marathonJson pkgDef =
       lastNonEmpty (map (documentAt install pkg pkgVersion ''marathon.json'') repositories) (marathonJson d)"
    and "packageJson pkgDef =
       lastNonEmpty (map (documentAt install pkg pkgVersion ''package.json'') repositories) (packageJson d)"
    and "optionsJson pkgDef =
       lastNonEmpty (map (documentAt install pkg pkgVersion ''mantl.json'') repositories) (optionsJson d)"
    by blast
  then have "\<exists>pkgDef. collectFiles install pkg pkgVersion repositories d = Inr pkgDef \<and>
        lastWriterWins (documentAt install pkg pkgVersion ''command.json'') repositories
          (commandJson d) (commandJson pkgDef) \<and>
        lastWriterWins (documentAt install pkg pkgVersion ''config.json'') repositories
          (configJson d) (configJson pkgDef) \<and>
        lastWriterWins (documentAt install pkg pkgVersion ''marathon.json'') repositories
          (marathonJson d) (marathonJson pkgDef) \<and>
        lastWriterWins (documentAt install pkg pkgVersion ''package.json'') repositories
          (packageJson d) (packageJson pkgDef) \<and>
        lastWriterWins (documentAt install pkg pkgVersion ''mantl.json'') repositories
          (optionsJson d) (optionsJson pkgDef)"
    using lastWriterWins_lastNonEmpty [OF srt] by simp
  with srt base_first [OF srt] show ?thesis
    by blast
qed

text \<open>
  At \<open>layeredStore\<close>, for release 9 of \<open>zk\<close>: the schema is the layer's, not the
  base's; the template and the metadata are the base's; the options are the layer's; the
  command document, which no layer has, stays empty.
\<close>

theorem collectFiles_last_writer_wins_witness:
  "Repositories (kv \<lparr>kv = layeredStore\<rparr>) =
     Inr [\<lparr>repo_Name = ''base'', repo_Index = 0\<rparr>, \<lparr>repo_Name = ''overrides'', repo_Index = 1\<rparr>] \<and>
   Name layeredPackage \<noteq> [] \<and>
   collectFiles \<lparr>kv = layeredStore\<rparr> layeredPackage
       \<lparr>pv_Version = ''1.2'', pv_Index = ''9'', pv_Supported = True\<rparr>
       [\<lparr>repo_Name = ''base'', repo_Index = 0\<rparr>, \<lparr>repo_Name = ''overrides'', repo_Index = 1\<rparr>]
       emptyDefinition =
     Inr (emptyDefinition\<lparr>configJson := ''layer-schema'', marathonJson := ''base-template'',
            packageJson := ''base-metadata'', optionsJson := ''options-9''\<rparr>)"
proof -
  have repos: "Repositories (kv \<lparr>kv = layeredStore\<rparr>) =
     Inr [\<lparr>repo_Name = ''base'', repo_Index = 0\<rparr>, \<lparr>repo_Name = ''overrides'', repo_Index = 1\<rparr>]"
    by code_simp
  have nm: "Name layeredPackage \<noteq> []"
    by (simp add: layeredPackage_def)
  have run: "collectFiles \<lparr>kv = layeredStore\<rparr> layeredPackage
       \<lparr>pv_Version = ''1.2'', pv_Index = ''9'', pv_Supported = True\<rparr>
       [\<lparr>repo_Name = ''base'', repo_Index = 0\<rparr>, \<lparr>repo_Name = ''overrides'', repo_Index = 1\<rparr>]
       emptyDefinition =
     Inr (emptyDefinition\<lparr>configJson := ''layer-schema'', marathonJson := ''base-template'',
            packageJson := ''base-metadata'', optionsJson := ''options-9''\<rparr>)"
    by code_simp
  from repos nm run
    collectFiles_last_writer_wins [OF repos nm,
      of "\<lparr>pv_Version = ''1.2'', pv_Index = ''9'', pv_Supported = True\<rparr>" emptyDefinition]
  show ?thesis
    by simp
qed

subsection \<open>Further facts\<close>

text \<open>
  With at least one layer, the flag that \<open>probeLayers\<close> leaves is the answer of the
  last layer alone, whatever the layers before it hold.
\<close>

lemma probeLayers_last_layer:
  assumes "PackageVersionKey pkg (pv_Index pv) = Inr vkey"
  shows "probeLayers install pkg (layers @ [layer]) pv =
     Inr (pv\<lparr>pv_Supported :=
       (case Get (kv install) (path_Join [PackagesKey layer, vkey, ''mantl.json'']) of
          Inl err \<Rightarrow> False
        | Inr pair \<Rightarrow> pair \<noteq> None)\<rparr>)"
  using assms
proof (induction layers arbitrary: pv)
  case Nil
  then show ?case by (simp add: Let_def split: sum.splits)
next
  case (Cons l layers)
  then show ?case by (simp add: Let_def)
qed

text \<open>
  The definition that \<open>GetPackageDefinition\<close> returns is for the version that
  \<open>findVersion\<close> chose, and each of its documents is last-writer-wins from the empty
  document over the installer's repositories.
\<close>

lemma collectFiles_success:
  assumes "collectFiles install pkg pkgVersion repos d = Inr pkgDef"
    and "sorted (map repo_Index repos)"
  shows "lastWriterWins (documentAt install pkg pkgVersion ''command.json'') repos
           (commandJson d) (commandJson pkgDef) \<and>
         lastWriterWins (documentAt install pkg pkgVersion ''config.json'') repos
           (configJson d) (configJson pkgDef) \<and>
         lastWriterWins (documentAt install pkg pkgVersion ''marathon.json'') repos
           (marathonJson d) (marathonJson pkgDef) \<and>
         lastWriterWins (documentAt install pkg pkgVersion ''package.json'') repos
           (packageJson d) (packageJson pkgDef) \<and>
         lastWriterWins (documentAt install pkg pkgVersion ''mantl.json'') repos
           (optionsJson d) (optionsJson pkgDef) \<and>
         version pkgDef = version d \<and> release pkgDef = release d"
proof (cases "PackageVersionKey pkg (pv_Index pkgVersion)")
  case (Inl pn)
  with assms(1) have "repos = []" and "pkgDef = d"
    by (cases repos; simp)+
  then show ?thesis by (simp add: lastWriterWins_def)
next
  case (Inr vkey)
  from collectFiles_fields [OF Inr, of install repos d] assms(1)
  show ?thesis
    using lastWriterWins_lastNonEmpty [OF assms(2)] by auto
qed

lemma GetPackageDefinition_documents:
  assumes "GetPackageDefinition J install nm ver = Inr (Inr pkgDef)"
  shows "\<exists>pkg pkgVersion repositories.
     getPackageByName J install nm = Inr (Inr (Some pkg)) \<and>
     findVersion pkg ver = Some pkgVersion \<and>
     Install_Repositories install = Inr repositories \<and>
     version pkgDef = pv_Version pkgVersion \<and> release pkgDef = pv_Index pkgVersion \<and>
     lastWriterWins (documentAt install pkg pkgVersion ''command.json'') repositories
       [] (commandJson pkgDef) \<and>
     lastWriterWins (documentAt install pkg pkgVersion ''config.json'') repositories
       [] (configJson pkgDef) \<and>
     lastWriterWins (documentAt install pkg pkgVersion ''marathon.json'') repositories
       [] (marathonJson pkgDef) \<and>
     lastWriterWins (documentAt install pkg pkgVersion ''package.json'') repositories
       [] (packageJson pkgDef) \<and>
     lastWriterWins (documentAt install pkg pkgVersion ''mantl.json'') repositories
       [] (optionsJson pkgDef)"
proof -
  from assms obtain pkg where pkg: "getPackageByName J install nm = Inr (Inr (Some pkg))"
    by (auto simp: GetPackageDefinition_def split: sum.splits option.splits)
  with assms obtain pkgVersion where pv: "findVersion pkg ver = Some pkgVersion"
    by (auto simp: GetPackageDefinition_def split: sum.splits option.splits)
  with assms pkg obtain repositories where
    repos: "Install_Repositories install = Inr repositories"
    by (auto simp: GetPackageDefinition_def split: sum.splits option.splits)
  define d0 where "d0 =
    \<lparr>commandJson = [], configJson = [], marathonJson = [], packageJson = [],
     optionsJson = [], name = Name pkg, version = pv_Version pkgVersion,
     release = pv_Index pkgVersion, framework = Framework pkg, frameworkName = []\<rparr>"
  from assms pkg pv repos obtain d where
    d: "collectFiles install pkg pkgVersion repositories d0 = Inr d"
    and res: "pkgDef = d \<or> (\<exists>fw. pkgDef = d\<lparr>frameworkName := fw\<rparr>)"
    by (auto simp: GetPackageDefinition_def d0_def split: sum.splits option.splits json.splits)
  from repos have "sorted (map repo_Index repositories)"
    by (simp add: Install_Repositories_def sorted_Repositories)
  from collectFiles_success [OF d this] res pkg pv repos show ?thesis
    by (auto simp: d0_def)
qed

text \<open>
  At \<open>layeredStore\<close>: the request for \<open>ZK\<close> with no version gives the definition of
  release 9, and the default 3 of \<open>instances\<close> is overridden by the option 5.
\<close>

lemma zk_end_to_end:
  "GetPackageDefinition layeredUnmarshal \<lparr>kv = layeredStore\<rparr> '' ZK'' [] =
     Inr (Inr (emptyDefinition\<lparr>configJson := ''layer-schema'', marathonJson := ''base-template'',
            packageJson := ''base-metadata'', optionsJson := ''options-9''\<rparr>)) \<and>
   map_of (mergeConfig (defaultConfig exampleSchema) [(''instances'', JNum 5)]) ''instances'' =
     Some (JNum 5)"
  by code_simp

end
